theory Spec2Isabelle
  imports Complex_Main "HOL-Library.AList"
begin

section \<open>Python values used by the data listeners\<close>

text \<open>
  The listeners of \<^verbatim>\<open>datalogger/DataListener.py\<close> receive a data point (a Python
  dict) and a sensor object from the logger. Neither class is defined in this file of
  the repository, so both are records whose fields are the keys and attributes that
  the listeners read. Python dicts keep insertion order and overwrite a present
  key in place; they are association lists updated with \<^const>\<open>AList.update\<close>.
  Python ints are \<^typ>\<open>int\<close>. A float is carried by its exact rational value (every
  finite double is a rational), strings are ASCII text. The ids, the raw value, the
  timestamp and the signal quality are ints; \<^verbatim>\<open>rawToCooked\<close> is the sensor's own
  conversion and returns a finite float.
\<close>

subsection \<open>Decimal conversion and the \<^verbatim>\<open>%d\<close>, \<^verbatim>\<open>%f\<close>, \<^verbatim>\<open>%.2f\<close> formats\<close>

definition digit_char :: "nat \<Rightarrow> char" where
  "digit_char n = ''0123456789'' ! n"

fun str_nat :: "nat \<Rightarrow> string" where
  "str_nat n = (if n < 10 then [digit_char n] else str_nat (n div 10) @ [digit_char (n mod 10)])"

declare str_nat.simps [simp del]

text \<open>\<^verbatim>\<open>str(i)\<close> and \<^verbatim>\<open>"%d" % i\<close> for an int.\<close>

definition str_int :: "int \<Rightarrow> string" where
  "str_int i = (if i < 0 then ''-'' @ str_nat (nat (- i)) else str_nat (nat i))"

text \<open>Rounding of an exact value to the nearest integer, ties to the even one.\<close>

definition round_half_even :: "rat \<Rightarrow> int" where
  "round_half_even x =
     (let f = \<lfloor>x\<rfloor>; r = x - of_int f
      in if r < 1 / 2 then f else if 1 / 2 < r then f + 1 else if even f then f else f + 1)"

definition zero_pad :: "nat \<Rightarrow> string \<Rightarrow> string" where
  "zero_pad p s = replicate (p - length s) CHR ''0'' @ s"

text \<open>\<^verbatim>\<open>"%.<p>f" % x\<close> for a finite float \<open>x\<close> and a precision \<open>p > 0\<close>.\<close>

definition format_f :: "nat \<Rightarrow> rat \<Rightarrow> string" where
  "format_f p x =
     (let n = nat (round_half_even (\<bar>x\<bar> * 10 ^ p))
      in (if x < 0 then ''-'' else '''') @ str_nat (n div 10 ^ p) @ ''.'' @
         zero_pad p (str_nat (n mod 10 ^ p)))"

subsection \<open>\<^verbatim>\<open>str.lower\<close> and \<^verbatim>\<open>str.join\<close>\<close>

definition lower_char :: "char \<Rightarrow> char" where
  "lower_char c =
     (case map_of (zip ''ABCDEFGHIJKLMNOPQRSTUVWXYZ'' ''abcdefghijklmnopqrstuvwxyz'') c of
        None \<Rightarrow> c
      | Some d \<Rightarrow> d)"

definition lower :: "string \<Rightarrow> string" where
  "lower s = map lower_char s"

fun join :: "string \<Rightarrow> string list \<Rightarrow> string" where
  "join sep [] = ''''"
| "join sep [x] = x"
| "join sep (x # y # ys) = x @ sep @ join sep (y # ys)"

subsection \<open>Sensors, data points, exceptions\<close>

record sensor =
  sensor_id :: int
  displayid :: int
  sensor_name :: string
  sensor_type :: string
  sensor_unit :: string
  manufacturerType :: string
  rawToCooked :: "int \<Rightarrow> rat"

text \<open>
  A data point has the keys \<^verbatim>\<open>rawvalue\<close>, \<^verbatim>\<open>timestamp\<close> and \<^verbatim>\<open>signal\<close> (\<^verbatim>\<open>None\<close> when
  there is no signal quality). The homie publisher also reads the key \<^verbatim>\<open>sensor\<close>, which
  no listener writes: \<open>data_sensor\<close> is \<open>None\<close> when the dict has no such key.
\<close>

record datapoint =
  rawvalue :: int
  timestamp :: int
  signal :: "int option"
  data_sensor :: "sensor option"

datatype error = KeyError | TransportError

section \<open>RecentValuesListener\<close>

text \<open>
  The listener holds the dicts \<open>values\<close> and \<open>sensors\<close> and the flag \<open>ready\<close>. Opening the
  listening port is an effect on the outside world: \<open>bind_ok n\<close> says whether the \<open>n\<close>-th
  call of \<^verbatim>\<open>openListeningPort\<close> of the process gets through its \<^verbatim>\<open>try\<close> block. The
  state counts these calls in \<open>bind_attempts\<close> and keeps the error log in \<open>rv_errors\<close>.
\<close>

record rv_listener =
  rv_values :: "(int \<times> datapoint) list"
  rv_sensors :: "(int \<times> sensor) list"
  rv_ready :: bool
  bind_attempts :: nat
  rv_errors :: "string list"

definition openListeningPort :: "(nat \<Rightarrow> bool) \<Rightarrow> rv_listener \<Rightarrow> rv_listener" where
  "openListeningPort bind_ok st =
     (if bind_ok (bind_attempts st)
      then st\<lparr>bind_attempts := Suc (bind_attempts st), rv_ready := True\<rparr>
      else st\<lparr>bind_attempts := Suc (bind_attempts st),
              rv_errors := rv_errors st @ [''Unable to start TCP Server'']\<rparr>)"

definition rv_init :: "(nat \<Rightarrow> bool) \<Rightarrow> rv_listener" where
  "rv_init bind_ok =
     openListeningPort bind_ok
       \<lparr>rv_values = [], rv_sensors = [], rv_ready = False, bind_attempts = 0, rv_errors = []\<rparr>"

text \<open>
  \<^verbatim>\<open>self.values[sensor.id] = data\<close>, \<^verbatim>\<open>self.sensors[sensor.id] = sensor\<close>, and then
  \<^verbatim>\<open>if not self.ready: self.openListeningPort()\<close>.
\<close>

definition rv_onNewData :: "(nat \<Rightarrow> bool) \<Rightarrow> rv_listener \<Rightarrow> datapoint \<Rightarrow> sensor \<Rightarrow> rv_listener" where
  "rv_onNewData bind_ok st dat sen =
     (let st1 = st\<lparr>rv_values := AList.update (sensor_id sen) dat (rv_values st)\<rparr>;
          st2 = st1\<lparr>rv_sensors := AList.update (sensor_id sen) sen (rv_sensors st1)\<rparr>
      in if \<not> rv_ready st2 then openListeningPort bind_ok st2 else st2)"

text \<open>A sequence of deliveries, oldest first.\<close>

fun rv_deliver :: "(nat \<Rightarrow> bool) \<Rightarrow> rv_listener \<Rightarrow> (datapoint \<times> sensor) list \<Rightarrow> rv_listener" where
  "rv_deliver bind_ok st [] = st"
| "rv_deliver bind_ok st ((dat, sen) # rs) = rv_deliver bind_ok (rv_onNewData bind_ok st dat sen) rs"

text \<open>
  \<^verbatim>\<open>ThreadedTCPRequestHandler.setup\<close>: the response sent to a client that connects. The
  lookup \<^verbatim>\<open>sensors[sid]\<close> raises \<^verbatim>\<open>KeyError\<close> on a missing key.
\<close>

definition signaltext :: "datapoint \<Rightarrow> string" where
  "signaltext dat = (case signal dat of None \<Rightarrow> ''-'' | Some q \<Rightarrow> str_int q)"

definition response_line :: "sensor \<Rightarrow> datapoint \<Rightarrow> string" where
  "response_line sen dat =
     str_int (displayid sen) @ '','' @ format_f 6 (rawToCooked sen (rawvalue dat)) @ '' '' @
     sensor_unit sen @ '','' @ str_int (timestamp dat) @ '','' @ signaltext dat @ '','' @
     sensor_type sen @ '','' @ sensor_name sen @ '','' @ str_int (sensor_id sen) @ [CHR 0x0A]"

fun setup_loop :: "(int \<times> sensor) list \<Rightarrow> string \<Rightarrow> (int \<times> datapoint) list \<Rightarrow> error + string" where
  "setup_loop sensors response [] = Inr response"
| "setup_loop sensors response ((sid, dat) # rest) =
     (case map_of sensors sid of
        None \<Rightarrow> Inl KeyError
      | Some sen \<Rightarrow> setup_loop sensors (response @ response_line sen dat) rest)"

definition handler_setup :: "rv_listener \<Rightarrow> error + string" where
  "handler_setup st = setup_loop (rv_sensors st) '''' (rv_values st)"

section \<open>MQTTListener\<close>

text \<open>
  A message is one call of \<^verbatim>\<open>mqttClient.publish(topic, payload, qos, retain)\<close>; the two
  trailing arguments default to \<open>0\<close> and \<^verbatim>\<open>False\<close>. A payload is a string or the dict
  handed to \<^verbatim>\<open>json.dumps\<close>, kept as the list of its items.
\<close>

datatype payload = Text string | Json "(string \<times> string) list"

record message =
  topic :: string
  payload :: payload
  qos :: nat
  retain :: bool

text \<open>
  The broker is outside the program: \<open>connect_ok\<close> says whether the \<^verbatim>\<open>try\<close> block of
  \<^verbatim>\<open>connect\<close> gets through, \<open>publish_ok n\<close> whether the \<open>n\<close>-th call of
  \<^verbatim>\<open>mqttClient.publish\<close> of the process returns (it raises otherwise). The state keeps
  every publish call in \<open>attempts\<close>, in order, with its outcome, counts the calls of
  \<^verbatim>\<open>connect\<close> and keeps the error log.
\<close>

record mqtt_listener =
  params :: "string \<rightharpoonup> string"
  mq_values :: "(int \<times> datapoint) list"
  mq_ready :: bool
  connect_calls :: nat
  attempts :: "(message \<times> bool) list"
  mq_errors :: "string list"

definition params_get :: "mqtt_listener \<Rightarrow> string \<Rightarrow> string \<Rightarrow> string" where
  "params_get st k dflt = (case params st k of None \<Rightarrow> dflt | Some v \<Rightarrow> v)"

definition connect :: "bool \<Rightarrow> mqtt_listener \<Rightarrow> mqtt_listener" where
  "connect connect_ok st =
     (if connect_ok
      then st\<lparr>connect_calls := Suc (connect_calls st), mq_ready := True\<rparr>
      else st\<lparr>connect_calls := Suc (connect_calls st),
              mq_errors := mq_errors st @ [''Unable to communicate with mqtt broker'']\<rparr>)"

definition mq_init :: "(string \<rightharpoonup> string) \<Rightarrow> bool \<Rightarrow> mqtt_listener" where
  "mq_init ps connect_ok =
     connect connect_ok
       \<lparr>params = ps, mq_values = [], mq_ready = False, connect_calls = 0, attempts = [],
        mq_errors = []\<rparr>"

subsection \<open>The body of a \<^verbatim>\<open>try\<close> block\<close>

text \<open>
  A statement of a \<^verbatim>\<open>try\<close> body takes the publish calls made so far and returns them
  extended, with the exception it raised, if any.
\<close>

type_synonym action = "(message \<times> bool) list \<Rightarrow> (message \<times> bool) list \<times> error option"

definition publish :: "(nat \<Rightarrow> bool) \<Rightarrow> message \<Rightarrow> action" where
  "publish publish_ok m sent =
     (if publish_ok (length sent) then (sent @ [(m, True)], None)
      else (sent @ [(m, False)], Some TransportError))"

definition raise :: "error \<Rightarrow> action" where
  "raise e sent = (sent, Some e)"

text \<open>Statements in sequence: the first exception ends the block.\<close>

fun seq :: "action list \<Rightarrow> action" where
  "seq [] sent = (sent, None)"
| "seq (a # as) sent =
     (case a sent of (sent', None) \<Rightarrow> seq as sent' | (sent', Some e) \<Rightarrow> (sent', Some e))"

text \<open>\<^verbatim>\<open>try: body except Exception as e: logging.error(...)\<close>\<close>

definition try_publishing :: "mqtt_listener \<Rightarrow> action \<Rightarrow> mqtt_listener" where
  "try_publishing st body =
     (case body (attempts st) of
        (sent, None) \<Rightarrow> st\<lparr>attempts := sent\<rparr>
      | (sent, Some e) \<Rightarrow>
          st\<lparr>attempts := sent, mq_errors := mq_errors st @ [''Error publishing mqtt messages'']\<rparr>)"

text \<open>\<^verbatim>\<open>try: self.values[sensor.displayid] except: newSensor = True\<close>\<close>

definition newSensor :: "mqtt_listener \<Rightarrow> sensor \<Rightarrow> bool" where
  "newSensor st sen = (case map_of (mq_values st) (displayid sen) of None \<Rightarrow> True | Some v \<Rightarrow> False)"

subsection \<open>Home Assistant discovery format\<close>

definition ha_topicroot :: "mqtt_listener \<Rightarrow> string" where
  "ha_topicroot st = params_get st ''mqtt_base_topic'' ''homeassistant'' @ ''/'' @ ''sensor''"

definition topicconfig :: "mqtt_listener \<Rightarrow> sensor \<Rightarrow> string" where
  "topicconfig st sen =
     ha_topicroot st @ ''/'' @ params_get st ''mqtt_device'' ''pylarexx'' @ ''_'' @
     str_int (displayid sen) @ ''/config''"

definition topicstate :: "mqtt_listener \<Rightarrow> sensor \<Rightarrow> string" where
  "topicstate st sen =
     ha_topicroot st @ ''/'' @ params_get st ''mqtt_device'' ''pylarexx'' @ ''_'' @
     str_int (displayid sen) @ ''/state''"

definition config_payload :: "mqtt_listener \<Rightarrow> sensor \<Rightarrow> (string \<times> string) list" where
  "config_payload st sen =
     (let unit_of_measurement = (if sensor_unit sen = ''%RH'' then ''%'' else sensor_unit sen);
          stype = (if lower (sensor_type sen) = ''relative humidity'' then ''humidity''
                   else lower (sensor_type sen))
      in [(''name'', sensor_name sen @ '' '' @ sensor_type sen),
          (''device_class'', stype),
          (''state_topic'', topicstate st sen),
          (''unit_of_measurement'', unit_of_measurement),
          (''value_template'', ''{{value_json.'' @ stype @ ''}}'')])"

definition statePayload :: "datapoint \<Rightarrow> sensor \<Rightarrow> (string \<times> string) list" where
  "statePayload dat sen = [(lower (sensor_type sen), format_f 2 (rawToCooked sen (rawvalue dat)))]"

text \<open>
  The config payload is published inside \<^verbatim>\<open>if newSensor:\<close>, the state payload after
  it; the function does not assign to \<^verbatim>\<open>self.values\<close>.
\<close>

definition sendHomeAssistantMessage ::
  "(nat \<Rightarrow> bool) \<Rightarrow> mqtt_listener \<Rightarrow> datapoint \<Rightarrow> sensor \<Rightarrow> mqtt_listener" where
  "sendHomeAssistantMessage publish_ok st dat sen =
     (let new = newSensor st sen
      in if mq_ready st
         then try_publishing st
                (seq ((if new
                       then [publish publish_ok
                               \<lparr>topic = topicconfig st sen, payload = Json (config_payload st sen),
                                qos = 0, retain = True\<rparr>]
                       else []) @
                      [publish publish_ok
                         \<lparr>topic = topicstate st sen, payload = Json (statePayload dat sen),
                          qos = 0, retain = False\<rparr>]))
         else st)"

subsection \<open>Homie convention\<close>

definition homie_topicroot :: "mqtt_listener \<Rightarrow> string" where
  "homie_topicroot st =
     params_get st ''mqtt_base_topic'' ''homie'' @ ''/'' @ params_get st ''mqtt_device'' ''pylarexx''"

text \<open>
  The seven publish calls for one sensor node. The source writes them out twice: in the
  loop over \<^verbatim>\<open>self.values\<close>, reading the sensor from \<^verbatim>\<open>value["sensor"]\<close>, and in the
  \<^verbatim>\<open>else\<close> branch, reading the sensor that was delivered.
\<close>

definition sensor_messages :: "string \<Rightarrow> int \<Rightarrow> sensor \<Rightarrow> int \<Rightarrow> message list" where
  "sensor_messages topicroot sid sen raw =
     (let node = topicroot @ ''/sensor_'' @ str_int sid;
          prop = node @ ''/'' @ lower (sensor_type sen)
      in [\<lparr>topic = node @ ''/$type'', payload = Text (manufacturerType sen), qos = 0, retain = False\<rparr>,
          \<lparr>topic = node @ ''/$name'', payload = Text (sensor_name sen), qos = 0, retain = False\<rparr>,
          \<lparr>topic = node @ ''/$properties'', payload = Text (lower (sensor_type sen)), qos = 0,
           retain = False\<rparr>,
          \<lparr>topic = prop @ ''/$name'', payload = Text (sensor_name sen @ '' '' @ sensor_type sen),
           qos = 0, retain = False\<rparr>,
          \<lparr>topic = prop @ ''/$datatype'', payload = Text ''float'', qos = 0, retain = False\<rparr>,
          \<lparr>topic = prop @ ''/$unit'', payload = Text (sensor_unit sen), qos = 0, retain = False\<rparr>,
          \<lparr>topic = prop, payload = Text (format_f 2 (rawToCooked sen raw)), qos = 0,
           retain = False\<rparr>])"

text \<open>
  One round of \<^verbatim>\<open>for sid, value in self.values.items()\<close>: the first argument that is
  evaluated reads \<^verbatim>\<open>value["sensor"]\<close> and raises \<^verbatim>\<open>KeyError\<close> when the key is missing.
\<close>

definition publish_node :: "(nat \<Rightarrow> bool) \<Rightarrow> string \<Rightarrow> int \<times> datapoint \<Rightarrow> action" where
  "publish_node publish_ok topicroot item =
     (case data_sensor (snd item) of
        None \<Rightarrow> raise KeyError
      | Some vsen \<Rightarrow>
          seq (map (publish publish_ok)
                 (sensor_messages topicroot (fst item) vsen (rawvalue (snd item)))))"

definition nodestring :: "(int \<times> datapoint) list \<Rightarrow> string" where
  "nodestring vals = join '','' (map (\<lambda>item. ''sensor_'' @ str_int (fst item)) vals)"

definition device_messages :: "mqtt_listener \<Rightarrow> message list" where
  "device_messages st =
     [\<lparr>topic = homie_topicroot st @ ''/$homie'',
       payload = Text (params_get st ''homie_convention_version'' ''3.0''), qos = 0, retain = True\<rparr>,
      \<lparr>topic = homie_topicroot st @ ''/$name'',
       payload = Text (params_get st ''mqtt_device_name''
                         ''Python MQTT Adapter for Arexx Multilogger''),
       qos = 0, retain = True\<rparr>,
      \<lparr>topic = homie_topicroot st @ ''/$nodes'', payload = Text (nodestring (mq_values st)),
       qos = 0, retain = True\<rparr>,
      \<lparr>topic = homie_topicroot st @ ''/$state'', payload = Text ''ready'', qos = 0, retain = True\<rparr>]"

text \<open>
  \<^verbatim>\<open>self.values[sensor.displayid] = data\<close> comes after the lookup that sets
  \<^verbatim>\<open>newSensor\<close> and before \<^verbatim>\<open>if self.ready:\<close>. The branch for a new sensor publishes
  the device metadata and then runs the loop over all of \<^verbatim>\<open>self.values\<close>.
\<close>

definition sendHomieMessages ::
  "(nat \<Rightarrow> bool) \<Rightarrow> mqtt_listener \<Rightarrow> datapoint \<Rightarrow> sensor \<Rightarrow> mqtt_listener" where
  "sendHomieMessages publish_ok st dat sen =
     (let new = newSensor st sen;
          st1 = st\<lparr>mq_values := AList.update (displayid sen) dat (mq_values st)\<rparr>
      in if mq_ready st1
         then try_publishing st1
                (if new
                 then seq (map (publish publish_ok) (device_messages st1) @
                           map (publish_node publish_ok (homie_topicroot st1)) (mq_values st1))
                 else seq (map (publish publish_ok)
                             (sensor_messages (homie_topicroot st1) (displayid sen) sen
                                (rawvalue dat))))
         else st1)"

subsection \<open>Delivery\<close>

text \<open>
  \<^verbatim>\<open>onNewData\<close> reads \<^verbatim>\<open>payload_format\<close> (default \<^verbatim>\<open>home-assistant\<close>) and tests it twice,
  with two \<^verbatim>\<open>if\<close> statements. A sequence of deliveries is given oldest first.
\<close>

definition mq_onNewData ::
  "(nat \<Rightarrow> bool) \<Rightarrow> mqtt_listener \<Rightarrow> datapoint \<Rightarrow> sensor \<Rightarrow> mqtt_listener" where
  "mq_onNewData publish_ok st dat sen =
     (let payloadFormat = params_get st ''payload_format'' ''home-assistant'';
          st1 = (if payloadFormat = ''homie'' then sendHomieMessages publish_ok st dat sen else st)
      in if payloadFormat = ''home-assistant'' then sendHomeAssistantMessage publish_ok st1 dat sen
         else st1)"

fun mq_deliver ::
  "(nat \<Rightarrow> bool) \<Rightarrow> mqtt_listener \<Rightarrow> (datapoint \<times> sensor) list \<Rightarrow> mqtt_listener" where
  "mq_deliver publish_ok st [] = st"
| "mq_deliver publish_ok st ((dat, sen) # rs) =
     mq_deliver publish_ok (mq_onNewData publish_ok st dat sen) rs"

section \<open>Notions used to state the properties\<close>

text \<open>The payloads of the publish calls made on a topic so far, oldest first.\<close>

definition attempted_on :: "string \<Rightarrow> mqtt_listener \<Rightarrow> payload list" where
  "attempted_on t st = map (payload \<circ> fst) (filter (\<lambda>a. topic (fst a) = t) (attempts st))"

definition attempted_topics :: "mqtt_listener \<Rightarrow> string list" where
  "attempted_topics st = map (topic \<circ> fst) (attempts st)"

text \<open>The publish calls made by the step from \<open>st\<close> to \<open>st'\<close>.\<close>

definition calls_between :: "mqtt_listener \<Rightarrow> mqtt_listener \<Rightarrow> (message \<times> bool) list" where
  "calls_between st st' = drop (length (attempts st)) (attempts st')"

text \<open>
  A statement of a \<^verbatim>\<open>try\<close> body only appends publish calls, all of them of messages
  that satisfy \<open>P\<close>, and ends without an exception only if every one of them returned.
\<close>

definition calls_within :: "(message \<Rightarrow> bool) \<Rightarrow> action \<Rightarrow> bool" where
  "calls_within P a =
     (\<forall>sent. \<exists>new. fst (a sent) = sent @ new \<and> list_all (\<lambda>x. P (fst x)) new \<and>
        (snd (a sent) \<noteq> None \<or> list_all snd new))"

text \<open>
  The publish calls made when a list of messages is handed to the broker in order, the
  first of them as call number \<open>n\<close> of the process: each message is tried in turn, and
  the first call that raises is the last one made.
\<close>

fun published :: "(nat \<Rightarrow> bool) \<Rightarrow> nat \<Rightarrow> message list \<Rightarrow> (message \<times> bool) list" where
  "published publish_ok n [] = []"
| "published publish_ok n (m # ms) =
     (if publish_ok n then (m, True) # published publish_ok (Suc n) ms else [(m, False)])"

text \<open>The messages of the node of a stored data point that carries its sensor.\<close>

definition node_messages :: "string \<Rightarrow> int \<times> datapoint \<Rightarrow> message list" where
  "node_messages topicroot item =
     (case data_sensor (snd item) of
        None \<Rightarrow> []
      | Some vsen \<Rightarrow> sensor_messages topicroot (fst item) vsen (rawvalue (snd item)))"

text \<open>The topic and the outcome of every publish call made so far.\<close>

definition attempt_outcomes :: "mqtt_listener \<Rightarrow> (string \<times> bool) list" where
  "attempt_outcomes st = map (\<lambda>a. (topic (fst a), snd a)) (attempts st)"

text \<open>The four topics of the device-level metadata of the homie convention.\<close>

definition device_topics :: "mqtt_listener \<Rightarrow> string list" where
  "device_topics st = map (\<lambda>leaf. homie_topicroot st @ leaf) [''/$homie'', ''/$name'', ''/$nodes'', ''/$state'']"

text \<open>The keys of a dict, in its order.\<close>

definition keys :: "('k \<times> 'v) list \<Rightarrow> 'k list" where
  "keys d = map fst d"

text \<open>The last delivery made for a sensor id in a sequence of deliveries, oldest first.\<close>

fun last_delivery :: "int \<Rightarrow> (datapoint \<times> sensor) list \<Rightarrow> (datapoint \<times> sensor) option" where
  "last_delivery sid [] = None"
| "last_delivery sid ((dat, sen) # rs) =
     (case last_delivery sid rs of
        Some p \<Rightarrow> Some p
      | None \<Rightarrow> if sensor_id sen = sid then Some (dat, sen) else None)"

subsection \<open>Sample sensors and data points\<close>

definition office :: sensor where
  "office = \<lparr>sensor_id = 2, displayid = 7, sensor_name = ''Office'', sensor_type = ''Temperature'',
     sensor_unit = ''C'', manufacturerType = ''TSN-TH70E'', rawToCooked = (\<lambda>raw. of_int raw / 10)\<rparr>"

definition garden :: sensor where
  "garden = \<lparr>sensor_id = 1, displayid = 3, sensor_name = ''Garden'',
     sensor_type = ''Relative Humidity'', sensor_unit = ''%RH'', manufacturerType = ''TSN-TH70E'',
     rawToCooked = (\<lambda>raw. of_int raw / 10)\<rparr>"

definition reading :: "int \<Rightarrow> int \<Rightarrow> datapoint" where
  "reading raw ts = \<lparr>rawvalue = raw, timestamp = ts, signal = None, data_sensor = None\<rparr>"

text \<open>A data point whose dict also has the key \<^verbatim>\<open>sensor\<close>.\<close>

definition carrying :: "sensor \<Rightarrow> int \<Rightarrow> int \<Rightarrow> datapoint" where
  "carrying sen raw ts = \<lparr>rawvalue = raw, timestamp = ts, signal = None, data_sensor = Some sen\<rparr>"

definition always :: "nat \<Rightarrow> bool" where
  "always n = True"

definition never :: "nat \<Rightarrow> bool" where
  "never n = False"

definition first_fails :: "nat \<Rightarrow> bool" where
  "first_fails n = (0 < n)"

definition third_time :: "nat \<Rightarrow> bool" where
  "third_time n = (2 \<le> n)"

definition default_params :: "string \<rightharpoonup> string" where
  "default_params = Map.empty"

definition homie_params :: "string \<rightharpoonup> string" where
  "homie_params = [''payload_format'' \<mapsto> ''homie'']"

section \<open>Evaluating the formats\<close>

lemma str_nat_digit: "n < 10 \<Longrightarrow> str_nat n = [digit_char n]"
  by (simp add: str_nat.simps)

lemma str_nat_step: "10 \<le> n \<Longrightarrow> str_nat n = str_nat (n div 10) @ [digit_char (n mod 10)]"
  by (subst str_nat.simps) simp

lemma replicate_numeral: "replicate (numeral k) x = x # replicate (pred_numeral k) x"
  by (simp add: numeral_eq_Suc)

lemmas format_eval = str_int_def str_nat_digit str_nat_step digit_char_def format_f_def
  round_half_even_def zero_pad_def replicate_numeral lower_def lower_char_def Let_def

lemmas sample_defs = office_def garden_def reading_def carrying_def always_def never_def
  first_fails_def third_time_def default_params_def homie_params_def

lemmas mq_eval = mq_init_def connect_def mq_onNewData_def params_get_def
  sendHomeAssistantMessage_def sendHomieMessages_def newSensor_def try_publishing_def
  publish_def raise_def publish_node_def device_messages_def sensor_messages_def nodestring_def
  homie_topicroot_def topicconfig_def topicstate_def ha_topicroot_def config_payload_def
  statePayload_def attempted_on_def attempted_topics_def attempt_outcomes_def calls_between_def

section \<open>Properties of the RecentValuesListener\<close>

lemma keys_update_same:
  "keys (AList.update k v al) = keys (AList.update k w al)"
  by (induction al) (auto simp: keys_def)

lemma rv_onNewData_values:
  "rv_values (rv_onNewData bind_ok st dat sen) = AList.update (sensor_id sen) dat (rv_values st)"
  by (simp add: rv_onNewData_def openListeningPort_def Let_def)

lemma rv_onNewData_sensors:
  "rv_sensors (rv_onNewData bind_ok st dat sen) = AList.update (sensor_id sen) sen (rv_sensors st)"
  by (simp add: rv_onNewData_def openListeningPort_def Let_def)

lemma rv_init_values: "rv_values (rv_init bind_ok) = []"
  by (simp add: rv_init_def openListeningPort_def)

lemma rv_init_sensors: "rv_sensors (rv_init bind_ok) = []"
  by (simp add: rv_init_def openListeningPort_def)

lemma keys_update:
  "keys (AList.update k v al) = (if k \<in> set (keys al) then keys al else keys al @ [k])"
  by (induction al) (auto simp: keys_def)

lemma rv_deliver_keys_agree:
  "keys (rv_values st) = keys (rv_sensors st) \<Longrightarrow>
   keys (rv_values (rv_deliver bind_ok st rs)) = keys (rv_sensors (rv_deliver bind_ok st rs))"
proof (induction rs arbitrary: st)
  case Nil
  then show ?case by simp
next
  case (Cons r rs)
  obtain dat sen where r: "r = (dat, sen)" by (cases r)
  have "keys (rv_values (rv_onNewData bind_ok st dat sen)) =
        keys (rv_sensors (rv_onNewData bind_ok st dat sen))"
    using Cons.prems by (simp add: rv_onNewData_values rv_onNewData_sensors keys_update)
  then show ?case using Cons.IH r by simp
qed

lemma rv_deliver_distinct:
  "distinct (keys (rv_values st)) \<Longrightarrow> distinct (keys (rv_values (rv_deliver bind_ok st rs)))"
proof (induction rs arbitrary: st)
  case Nil
  then show ?case by simp
next
  case (Cons r rs)
  obtain dat sen where r: "r = (dat, sen)" by (cases r)
  have "distinct (keys (rv_values (rv_onNewData bind_ok st dat sen)))"
    using Cons.prems by (simp add: rv_onNewData_values keys_def distinct_update)
  then show ?case using Cons.IH r by simp
qed

lemma rv_deliver_values_lookup:
  "map_of (rv_values (rv_deliver bind_ok st rs)) sid =
     (case last_delivery sid rs of Some p \<Rightarrow> Some (fst p) | None \<Rightarrow> map_of (rv_values st) sid)"
proof (induction rs arbitrary: st)
  case Nil
  then show ?case by simp
next
  case (Cons r rs)
  obtain dat sen where r: "r = (dat, sen)" by (cases r)
  show ?case
    by (simp add: r Cons.IH rv_onNewData_values update_conv' split: option.splits)
qed

lemma rv_deliver_sensors_lookup:
  "map_of (rv_sensors (rv_deliver bind_ok st rs)) sid =
     (case last_delivery sid rs of Some p \<Rightarrow> Some (snd p) | None \<Rightarrow> map_of (rv_sensors st) sid)"
proof (induction rs arbitrary: st)
  case Nil
  then show ?case by simp
next
  case (Cons r rs)
  obtain dat sen where r: "r = (dat, sen)" by (cases r)
  show ?case
    by (simp add: r Cons.IH rv_onNewData_sensors update_conv' split: option.splits)
qed

lemma setup_loop_total:
  "set (keys vals) \<subseteq> set (keys sensors) \<Longrightarrow>
   setup_loop sensors response vals =
     Inr (response @ concat (map (\<lambda>item. case map_of sensors (fst item) of
                                    None \<Rightarrow> [] | Some sen \<Rightarrow> response_line sen (snd item)) vals))"
proof (induction vals arbitrary: response)
  case Nil
  then show ?case by simp
next
  case (Cons item vals)
  obtain sid dat where item: "item = (sid, dat)" by (cases item)
  from Cons.prems item have "sid \<in> fst ` set sensors" by (simp add: keys_def)
  then obtain sen where sen: "map_of sensors sid = Some sen"
    by (metis domD dom_map_of_conv_image_fst)
  from Cons.prems have "set (keys vals) \<subseteq> set (keys sensors)" by (simp add: keys_def)
  from Cons.IH [OF this] show ?case by (simp add: item sen)
qed

lemma reachable_keys_agree:
  "keys (rv_values (rv_deliver bind_ok (rv_init bind_ok) rs)) =
   keys (rv_sensors (rv_deliver bind_ok (rv_init bind_ok) rs))"
  by (rule rv_deliver_keys_agree) (simp add: rv_init_values rv_init_sensors keys_def)

lemma rv_onNewData_ready:
  "rv_ready st \<Longrightarrow>
   rv_ready (rv_onNewData bind_ok st dat sen) \<and>
   bind_attempts (rv_onNewData bind_ok st dat sen) = bind_attempts st \<and>
   rv_errors (rv_onNewData bind_ok st dat sen) = rv_errors st"
  by (simp add: rv_onNewData_def Let_def)

lemma rv_onNewData_not_ready:
  "\<not> rv_ready st \<Longrightarrow>
   rv_ready (rv_onNewData bind_ok st dat sen) = bind_ok (bind_attempts st) \<and>
   bind_attempts (rv_onNewData bind_ok st dat sen) = Suc (bind_attempts st) \<and>
   rv_errors (rv_onNewData bind_ok st dat sen) =
     (if bind_ok (bind_attempts st) then rv_errors st
      else rv_errors st @ [''Unable to start TCP Server''])"
  by (simp add: rv_onNewData_def openListeningPort_def Let_def)

lemma rv_deliver_ready:
  "rv_ready st \<Longrightarrow>
   rv_ready (rv_deliver bind_ok st rs) \<and>
   bind_attempts (rv_deliver bind_ok st rs) = bind_attempts st \<and>
   rv_errors (rv_deliver bind_ok st rs) = rv_errors st"
proof (induction rs arbitrary: st)
  case Nil
  then show ?case by simp
next
  case (Cons r rs)
  obtain dat sen where r: "r = (dat, sen)" by (cases r)
  from rv_onNewData_ready [OF Cons.prems, of bind_ok dat sen]
       Cons.IH [of "rv_onNewData bind_ok st dat sen"]
  show ?case by (simp add: r)
qed

lemma rv_deliver_all_fail:
  "\<not> rv_ready st \<Longrightarrow> (\<forall>n<length rs. \<not> bind_ok (bind_attempts st + n)) \<Longrightarrow>
   \<not> rv_ready (rv_deliver bind_ok st rs) \<and>
   bind_attempts (rv_deliver bind_ok st rs) = bind_attempts st + length rs \<and>
   rv_errors (rv_deliver bind_ok st rs) =
     rv_errors st @ replicate (length rs) ''Unable to start TCP Server''"
proof (induction rs arbitrary: st)
  case Nil
  then show ?case by simp
next
  case (Cons r rs)
  obtain dat sen where r: "r = (dat, sen)" by (cases r)
  let ?next = "rv_onNewData bind_ok st dat sen"
  from Cons.prems(2) have b0: "\<not> bind_ok (bind_attempts st)" by force
  with rv_onNewData_not_ready [OF Cons.prems(1), of bind_ok dat sen]
  have s: "\<not> rv_ready ?next" "bind_attempts ?next = Suc (bind_attempts st)"
    "rv_errors ?next = rv_errors st @ [''Unable to start TCP Server'']"
    by simp_all
  have "\<forall>n<length rs. \<not> bind_ok (bind_attempts ?next + n)"
  proof (intro allI impI)
    fix n assume "n < length rs"
    then have "Suc n < length (r # rs)" by simp
    with Cons.prems(2) have "\<not> bind_ok (bind_attempts st + Suc n)" by blast
    then show "\<not> bind_ok (bind_attempts ?next + n)" by (simp add: s)
  qed
  from Cons.IH [OF s(1) this] show ?case
    by (simp add: r s replicate_append_same)
qed

lemma rv_deliver_first_success:
  "\<not> rv_ready st \<Longrightarrow> k < length rs \<Longrightarrow> bind_ok (bind_attempts st + k) \<Longrightarrow>
   (\<forall>n<k. \<not> bind_ok (bind_attempts st + n)) \<Longrightarrow>
   rv_ready (rv_deliver bind_ok st rs) \<and>
   bind_attempts (rv_deliver bind_ok st rs) = bind_attempts st + Suc k \<and>
   rv_errors (rv_deliver bind_ok st rs) =
     rv_errors st @ replicate k ''Unable to start TCP Server''"
proof (induction rs arbitrary: st k)
  case Nil
  then show ?case by simp
next
  case (Cons r rs)
  obtain dat sen where r: "r = (dat, sen)" by (cases r)
  let ?next = "rv_onNewData bind_ok st dat sen"
  note step = rv_onNewData_not_ready [OF Cons.prems(1), of bind_ok dat sen]
  show ?case
  proof (cases k)
    case 0
    with Cons.prems(3) step
    have s: "rv_ready ?next" "bind_attempts ?next = Suc (bind_attempts st)"
      "rv_errors ?next = rv_errors st"
      by simp_all
    from rv_deliver_ready [OF s(1), of bind_ok rs] show ?thesis
      by (simp add: r s 0)
  next
    case (Suc j)
    with Cons.prems(4) have b0: "\<not> bind_ok (bind_attempts st)" by force
    with step
    have s: "\<not> rv_ready ?next" "bind_attempts ?next = Suc (bind_attempts st)"
      "rv_errors ?next = rv_errors st @ [''Unable to start TCP Server'']"
      by simp_all
    have j: "j < length rs" using Cons.prems(2) Suc by simp
    have bj: "bind_ok (bind_attempts ?next + j)" using Cons.prems(3) Suc by (simp add: s)
    have "\<forall>n<j. \<not> bind_ok (bind_attempts ?next + n)"
    proof (intro allI impI)
      fix n assume "n < j"
      then have "Suc n < k" using Suc by simp
      with Cons.prems(4) have "\<not> bind_ok (bind_attempts st + Suc n)" by blast
      then show "\<not> bind_ok (bind_attempts ?next + n)" by (simp add: s)
    qed
    from Cons.IH [OF s(1) j bj this] show ?thesis
      by (simp add: r s Suc replicate_append_same)
  qed
qed

lemma rv_init_state:
  "rv_ready (rv_init bind_ok) = bind_ok 0 \<and>
   bind_attempts (rv_init bind_ok) = 1 \<and>
   rv_errors (rv_init bind_ok) = (if bind_ok 0 then [] else [''Unable to start TCP Server''])"
  by (simp add: rv_init_def openListeningPort_def)

lemma reachable_all_fail:
  assumes "\<forall>n\<le>length rs. \<not> bind_ok n"
  shows "\<not> rv_ready (rv_deliver bind_ok (rv_init bind_ok) rs) \<and>
         bind_attempts (rv_deliver bind_ok (rv_init bind_ok) rs) = Suc (length rs) \<and>
         rv_errors (rv_deliver bind_ok (rv_init bind_ok) rs) =
           replicate (Suc (length rs)) ''Unable to start TCP Server''"
proof -
  from assms have b0: "\<not> bind_ok 0" by blast
  with rv_init_state [of bind_ok]
  have i: "\<not> rv_ready (rv_init bind_ok)" "bind_attempts (rv_init bind_ok) = 1"
    "rv_errors (rv_init bind_ok) = [''Unable to start TCP Server'']"
    by simp_all
  have "\<forall>n<length rs. \<not> bind_ok (bind_attempts (rv_init bind_ok) + n)"
    using assms by (simp add: i)
  from rv_deliver_all_fail [OF i(1) this] show ?thesis by (simp add: i)
qed

lemma reachable_first_success:
  assumes "k \<le> length rs" "bind_ok k" "\<forall>n<k. \<not> bind_ok n"
  shows "rv_ready (rv_deliver bind_ok (rv_init bind_ok) rs) \<and>
         bind_attempts (rv_deliver bind_ok (rv_init bind_ok) rs) = Suc k \<and>
         rv_errors (rv_deliver bind_ok (rv_init bind_ok) rs) =
           replicate k ''Unable to start TCP Server''"
proof (cases k)
  case 0
  with assms(2) rv_init_state [of bind_ok]
  have i: "rv_ready (rv_init bind_ok)" "bind_attempts (rv_init bind_ok) = 1"
    "rv_errors (rv_init bind_ok) = []"
    by simp_all
  from rv_deliver_ready [OF i(1), of bind_ok rs] show ?thesis by (simp add: i 0)
next
  case (Suc j)
  with assms(3) have b0: "\<not> bind_ok 0" by blast
  with rv_init_state [of bind_ok]
  have i: "\<not> rv_ready (rv_init bind_ok)" "bind_attempts (rv_init bind_ok) = 1"
    "rv_errors (rv_init bind_ok) = [''Unable to start TCP Server'']"
    by simp_all
  have j: "j < length rs" using assms(1) Suc by simp
  have bj: "bind_ok (bind_attempts (rv_init bind_ok) + j)" using assms(2) Suc by (simp add: i)
  have "\<forall>n<j. \<not> bind_ok (bind_attempts (rv_init bind_ok) + n)"
    using assms(3) Suc by (simp add: i)
  from rv_deliver_first_success [OF i(1) j bj this] show ?thesis
    by (simp add: i Suc)
qed

text \<open>
  Claim C10. After any sequence of \<^verbatim>\<open>onNewData\<close> calls on a fresh listener, every key
  of \<open>values\<close> is a key of \<open>sensors\<close>, so the lookup \<^verbatim>\<open>sensors[sid]\<close> of the request
  handler never raises \<^verbatim>\<open>KeyError\<close>: the handler returns a response.
\<close>

theorem C10_values_keys_in_sensors:
  "set (keys (rv_values (rv_deliver bind_ok (rv_init bind_ok) rs))) \<subseteq>
     set (keys (rv_sensors (rv_deliver bind_ok (rv_init bind_ok) rs))) \<and>
   (\<exists>response. handler_setup (rv_deliver bind_ok (rv_init bind_ok) rs) = Inr response)"
proof -
  let ?st = "rv_deliver bind_ok (rv_init bind_ok) rs"
  have sub: "set (keys (rv_values ?st)) \<subseteq> set (keys (rv_sensors ?st))"
    by (simp add: reachable_keys_agree)
  from setup_loop_total [OF sub] have "\<exists>response. handler_setup ?st = Inr response"
    by (simp add: handler_setup_def)
  with sub show ?thesis by blast
qed

text \<open>
  Claim C5. After any sequence of deliveries the cache has at most one entry per sensor
  id (the keys of \<open>values\<close> are distinct), the entry of a sensor id is the data point of
  the last delivery made for that id, with the sensor object of that delivery, and the
  response of the request handler is made of one line per entry, rendered from that
  last delivery.
\<close>

theorem C5_last_write_wins:
  "distinct (keys (rv_values (rv_deliver bind_ok (rv_init bind_ok) rs))) \<and>
   map_of (rv_values (rv_deliver bind_ok (rv_init bind_ok) rs)) sid =
     map_option fst (last_delivery sid rs) \<and>
   map_of (rv_sensors (rv_deliver bind_ok (rv_init bind_ok) rs)) sid =
     map_option snd (last_delivery sid rs) \<and>
   handler_setup (rv_deliver bind_ok (rv_init bind_ok) rs) =
     Inr (concat (map (\<lambda>item. case last_delivery (fst item) rs of
                                 None \<Rightarrow> []
                               | Some p \<Rightarrow> response_line (snd p) (fst p))
                    (rv_values (rv_deliver bind_ok (rv_init bind_ok) rs))))"
proof -
  let ?st = "rv_deliver bind_ok (rv_init bind_ok) rs"
  have d: "distinct (keys (rv_values ?st))"
    by (rule rv_deliver_distinct) (simp add: rv_init_values keys_def)
  have v: "map_of (rv_values ?st) k = map_option fst (last_delivery k rs)" for k
    by (simp add: rv_deliver_values_lookup rv_init_values split: option.splits)
  have s: "map_of (rv_sensors ?st) k = map_option snd (last_delivery k rs)" for k
    by (simp add: rv_deliver_sensors_lookup rv_init_sensors split: option.splits)
  have sub: "set (keys (rv_values ?st)) \<subseteq> set (keys (rv_sensors ?st))"
    by (simp add: reachable_keys_agree)
  have line: "(case map_of (rv_sensors ?st) (fst item) of
                 None \<Rightarrow> [] | Some sen \<Rightarrow> response_line sen (snd item)) =
              (case last_delivery (fst item) rs of
                 None \<Rightarrow> [] | Some p \<Rightarrow> response_line (snd p) (fst p))"
    if "item \<in> set (rv_values ?st)" for item
  proof -
    from that d have "map_of (rv_values ?st) (fst item) = Some (snd item)"
      by (simp add: keys_def)
    with v [of "fst item"] show ?thesis
      by (cases "last_delivery (fst item) rs") (auto simp: s)
  qed
  have "handler_setup ?st =
        Inr (concat (map (\<lambda>item. case map_of (rv_sensors ?st) (fst item) of
                                   None \<Rightarrow> [] | Some sen \<Rightarrow> response_line sen (snd item))
                      (rv_values ?st)))"
    using setup_loop_total [OF sub] by (simp add: handler_setup_def)
  also have "map (\<lambda>item. case map_of (rv_sensors ?st) (fst item) of
                           None \<Rightarrow> [] | Some sen \<Rightarrow> response_line sen (snd item))
               (rv_values ?st) =
             map (\<lambda>item. case last_delivery (fst item) rs of
                           None \<Rightarrow> [] | Some p \<Rightarrow> response_line (snd p) (fst p))
               (rv_values ?st)"
    by (rule map_cong) (simp_all add: line)
  finally show ?thesis using d v s by simp
qed

text \<open>
  Claim C9. A second \<^verbatim>\<open>onNewData\<close> call with the same data point and sensor leaves both
  dicts, order included, and the response of the request handler as they were after
  the first call.
\<close>

theorem C9_update_idempotent:
  "rv_values (rv_onNewData bind_ok (rv_onNewData bind_ok st dat sen) dat sen) =
     rv_values (rv_onNewData bind_ok st dat sen) \<and>
   rv_sensors (rv_onNewData bind_ok (rv_onNewData bind_ok st dat sen) dat sen) =
     rv_sensors (rv_onNewData bind_ok st dat sen) \<and>
   handler_setup (rv_onNewData bind_ok (rv_onNewData bind_ok st dat sen) dat sen) =
     handler_setup (rv_onNewData bind_ok st dat sen)"
  by (simp add: rv_onNewData_values rv_onNewData_sensors handler_setup_def)

text \<open>
  Claim C8. Every \<^verbatim>\<open>onNewData\<close> call stores the data point and the sensor whatever the
  flag \<open>ready\<close> says. While \<open>ready\<close> is false the call tries to open the port once more,
  sets the flag if that succeeds and logs the failure otherwise; once \<open>ready\<close> is true no
  further attempt is made. Over a sequence of deliveries to a fresh listener: if every
  attempt fails, the port has been tried once at construction and once per delivery,
  each failure is logged and \<open>ready\<close> is still false; if the attempt number \<open>k\<close> (counted
  from 0, the one at construction) is the first to succeed, exactly \<open>k + 1\<close> attempts are
  made, \<open>k\<close> failures are logged and \<open>ready\<close> is true.
\<close>

theorem C8_bind_retried_on_update:
  "map_of (rv_values (rv_onNewData bind_ok st dat sen)) (sensor_id sen) = Some dat \<and>
   map_of (rv_sensors (rv_onNewData bind_ok st dat sen)) (sensor_id sen) = Some sen \<and>
   bind_attempts (rv_onNewData bind_ok st dat sen) =
     (if rv_ready st then bind_attempts st else Suc (bind_attempts st)) \<and>
   rv_ready (rv_onNewData bind_ok st dat sen) = (rv_ready st \<or> bind_ok (bind_attempts st)) \<and>
   rv_errors (rv_onNewData bind_ok st dat sen) =
     (if rv_ready st \<or> bind_ok (bind_attempts st) then rv_errors st
      else rv_errors st @ [''Unable to start TCP Server'']) \<and>
   ((\<forall>n\<le>length rs. \<not> bind_ok n) \<longrightarrow>
      \<not> rv_ready (rv_deliver bind_ok (rv_init bind_ok) rs) \<and>
      bind_attempts (rv_deliver bind_ok (rv_init bind_ok) rs) = Suc (length rs) \<and>
      rv_errors (rv_deliver bind_ok (rv_init bind_ok) rs) =
        replicate (Suc (length rs)) ''Unable to start TCP Server'') \<and>
   (k \<le> length rs \<and> bind_ok k \<and> (\<forall>n<k. \<not> bind_ok n) \<longrightarrow>
      rv_ready (rv_deliver bind_ok (rv_init bind_ok) rs) \<and>
      bind_attempts (rv_deliver bind_ok (rv_init bind_ok) rs) = Suc k \<and>
      rv_errors (rv_deliver bind_ok (rv_init bind_ok) rs) =
        replicate k ''Unable to start TCP Server'')"
proof -
  have step: "map_of (rv_values (rv_onNewData bind_ok st dat sen)) (sensor_id sen) = Some dat \<and>
    map_of (rv_sensors (rv_onNewData bind_ok st dat sen)) (sensor_id sen) = Some sen \<and>
    bind_attempts (rv_onNewData bind_ok st dat sen) =
      (if rv_ready st then bind_attempts st else Suc (bind_attempts st)) \<and>
    rv_ready (rv_onNewData bind_ok st dat sen) = (rv_ready st \<or> bind_ok (bind_attempts st)) \<and>
    rv_errors (rv_onNewData bind_ok st dat sen) =
      (if rv_ready st \<or> bind_ok (bind_attempts st) then rv_errors st
       else rv_errors st @ [''Unable to start TCP Server''])"
    by (simp add: rv_onNewData_def openListeningPort_def Let_def update_conv')
  show ?thesis
    using step reachable_all_fail [of rs bind_ok] reachable_first_success [of k rs bind_ok]
    by blast
qed

theorem C8_bind_retried_on_update_witness:
  "\<not> rv_ready (rv_deliver never (rv_init never)
                  [(reading 230 1700000000, office), (reading 452 1700000060, garden)]) \<and>
   bind_attempts (rv_deliver never (rv_init never)
                    [(reading 230 1700000000, office), (reading 452 1700000060, garden)]) = 3 \<and>
   rv_errors (rv_deliver never (rv_init never)
                [(reading 230 1700000000, office), (reading 452 1700000060, garden)]) =
     [''Unable to start TCP Server'', ''Unable to start TCP Server'',
      ''Unable to start TCP Server''] \<and>
   rv_ready (rv_deliver third_time (rv_init third_time)
               [(reading 230 1700000000, office), (reading 452 1700000060, garden)]) \<and>
   bind_attempts (rv_deliver third_time (rv_init third_time)
                    [(reading 230 1700000000, office), (reading 452 1700000060, garden)]) = 3 \<and>
   rv_errors (rv_deliver third_time (rv_init third_time)
                [(reading 230 1700000000, office), (reading 452 1700000060, garden)]) =
     [''Unable to start TCP Server'', ''Unable to start TCP Server'']"
proof -
  let ?rs = "[(reading 230 1700000000, office), (reading 452 1700000060, garden)]"
  have a: "\<forall>n\<le>length ?rs. \<not> never n"
    by (simp add: never_def)
  have b: "2 \<le> length ?rs \<and> third_time 2 \<and> (\<forall>n<2. \<not> third_time n)"
    by (simp add: third_time_def)
  have n: "\<not> rv_ready (rv_deliver never (rv_init never) ?rs) \<and>
     bind_attempts (rv_deliver never (rv_init never) ?rs) = Suc (length ?rs) \<and>
     rv_errors (rv_deliver never (rv_init never) ?rs) =
       replicate (Suc (length ?rs)) ''Unable to start TCP Server''"
    using C8_bind_retried_on_update
            [of never "rv_init never" "reading 230 1700000000" office ?rs 0] a
    by blast
  have t: "rv_ready (rv_deliver third_time (rv_init third_time) ?rs) \<and>
     bind_attempts (rv_deliver third_time (rv_init third_time) ?rs) = Suc 2 \<and>
     rv_errors (rv_deliver third_time (rv_init third_time) ?rs) =
       replicate 2 ''Unable to start TCP Server''"
    using C8_bind_retried_on_update
            [of third_time "rv_init third_time" "reading 230 1700000000" office ?rs 2] b
    by blast
  from n t show ?thesis
    by (simp add: numeral_eq_Suc del: rv_deliver.simps)
qed

text \<open>
  Claim C4. For the cache that holds only the sensor with display id 7, type
  Temperature, name Office, unit C, id 2 and its data point with raw value 230 (cooked
  23.0), timestamp 1700000000 and no signal quality, the response is the single line
  \<^verbatim>\<open>7,23.000000 C,1700000000,-,Temperature,Office,2\<close> with a newline. In general the
  response after any sequence of deliveries has one line per entry of \<open>values\<close>, in the
  format \<^verbatim>\<open>displayid,cooked unit,timestamp,signal,type,name,id\<close>, where the signal is
  \<^verbatim>\<open>-\<close> when absent and its decimal value otherwise; every entry has its sensor.
\<close>

theorem C4_live_query_response:
  "handler_setup (rv_onNewData bind_ok (rv_init bind_ok) (reading 230 1700000000) office) =
     Inr (''7,23.000000 C,1700000000,-,Temperature,Office,2'' @ [CHR 0x0A]) \<and>
   set (keys (rv_values (rv_deliver bind_ok (rv_init bind_ok) rs))) \<subseteq>
     set (keys (rv_sensors (rv_deliver bind_ok (rv_init bind_ok) rs))) \<and>
   handler_setup (rv_deliver bind_ok (rv_init bind_ok) rs) =
     Inr (concat (map (\<lambda>item. case map_of (rv_sensors (rv_deliver bind_ok (rv_init bind_ok) rs))
                                      (fst item) of
                                 None \<Rightarrow> []
                               | Some sen \<Rightarrow>
                                   str_int (displayid sen) @ '','' @
                                   format_f 6 (rawToCooked sen (rawvalue (snd item))) @ '' '' @
                                   sensor_unit sen @ '','' @
                                   str_int (timestamp (snd item)) @ '','' @
                                   (case signal (snd item) of None \<Rightarrow> ''-'' | Some q \<Rightarrow> str_int q) @
                                   '','' @ sensor_type sen @ '','' @ sensor_name sen @ '','' @
                                   str_int (sensor_id sen) @ [CHR 0x0A])
                    (rv_values (rv_deliver bind_ok (rv_init bind_ok) rs))))"
proof -
  let ?st = "rv_deliver bind_ok (rv_init bind_ok) rs"
  have one: "handler_setup (rv_onNewData bind_ok (rv_init bind_ok) (reading 230 1700000000) office) =
     Inr (''7,23.000000 C,1700000000,-,Temperature,Office,2'' @ [CHR 0x0A])"
    by (simp add: handler_setup_def rv_onNewData_def rv_init_def openListeningPort_def
          response_line_def signaltext_def sample_defs format_eval)
  have sub: "set (keys (rv_values ?st)) \<subseteq> set (keys (rv_sensors ?st))"
    by (simp add: reachable_keys_agree)
  have "handler_setup ?st =
        Inr (concat (map (\<lambda>item. case map_of (rv_sensors ?st) (fst item) of
                                   None \<Rightarrow> [] | Some sen \<Rightarrow> response_line sen (snd item))
                      (rv_values ?st)))"
    using setup_loop_total [OF sub] by (simp add: handler_setup_def)
  then show ?thesis
    using one sub by (simp add: response_line_def signaltext_def cong: option.case_cong)
qed

section \<open>Properties of the MQTTListener\<close>

lemma try_publishing_frame:
  "params (try_publishing st body) = params st"
  "mq_values (try_publishing st body) = mq_values st"
  "mq_ready (try_publishing st body) = mq_ready st"
  "connect_calls (try_publishing st body) = connect_calls st"
  by (simp_all add: try_publishing_def split: prod.splits option.splits)

lemma sendHomieMessages_frame:
  "params (sendHomieMessages publish_ok st dat sen) = params st"
  "mq_ready (sendHomieMessages publish_ok st dat sen) = mq_ready st"
  "connect_calls (sendHomieMessages publish_ok st dat sen) = connect_calls st"
  "mq_values (sendHomieMessages publish_ok st dat sen) =
     AList.update (displayid sen) dat (mq_values st)"
  by (simp_all add: sendHomieMessages_def Let_def try_publishing_frame)

lemma sendHomeAssistantMessage_frame:
  "params (sendHomeAssistantMessage publish_ok st dat sen) = params st"
  "mq_ready (sendHomeAssistantMessage publish_ok st dat sen) = mq_ready st"
  "connect_calls (sendHomeAssistantMessage publish_ok st dat sen) = connect_calls st"
  "mq_values (sendHomeAssistantMessage publish_ok st dat sen) = mq_values st"
  by (simp_all add: sendHomeAssistantMessage_def Let_def try_publishing_frame)

lemma params_get_cong:
  "params st' = params st \<Longrightarrow> params_get st' k d = params_get st k d"
  by (simp add: params_get_def)

lemma mq_onNewData_frame:
  "params (mq_onNewData publish_ok st dat sen) = params st"
  "mq_ready (mq_onNewData publish_ok st dat sen) = mq_ready st"
  "connect_calls (mq_onNewData publish_ok st dat sen) = connect_calls st"
  by (simp_all add: mq_onNewData_def Let_def sendHomieMessages_frame sendHomeAssistantMessage_frame)

lemma mq_onNewData_not_ready:
  "\<not> mq_ready st \<Longrightarrow> attempts (mq_onNewData publish_ok st dat sen) = attempts st"
  by (simp add: mq_onNewData_def Let_def sendHomieMessages_def sendHomeAssistantMessage_def)

lemma mq_deliver_not_ready:
  "\<not> mq_ready st \<Longrightarrow>
   \<not> mq_ready (mq_deliver publish_ok st rs) \<and>
   attempts (mq_deliver publish_ok st rs) = attempts st \<and>
   connect_calls (mq_deliver publish_ok st rs) = connect_calls st"
proof (induction rs arbitrary: st)
  case Nil
  then show ?case by simp
next
  case (Cons r rs)
  obtain dat sen where r: "r = (dat, sen)" by (cases r)
  have "\<not> mq_ready (mq_onNewData publish_ok st dat sen)"
    using Cons.prems by (simp add: mq_onNewData_frame)
  from Cons.IH [OF this] show ?case
    using Cons.prems by (simp add: r mq_onNewData_frame mq_onNewData_not_ready)
qed

lemma calls_within_publish: "P m \<Longrightarrow> calls_within P (publish publish_ok m)"
  by (simp add: calls_within_def publish_def)

lemma calls_within_raise: "calls_within P (raise e)"
  by (simp add: calls_within_def raise_def)

lemma calls_within_seq:
  "list_all (calls_within P) as \<Longrightarrow> calls_within P (seq as)"
proof (induction as)
  case Nil
  then show ?case by (simp add: calls_within_def)
next
  case (Cons a as)
  then have a: "calls_within P a" and as: "calls_within P (seq as)" by simp_all
  show ?case
    unfolding calls_within_def
  proof
    fix sent
    from a obtain n1 where n1: "fst (a sent) = sent @ n1" "list_all (\<lambda>x. P (fst x)) n1"
      "snd (a sent) \<noteq> None \<or> list_all snd n1"
      unfolding calls_within_def by blast
    from as obtain n2 where n2: "fst (seq as (sent @ n1)) = (sent @ n1) @ n2"
      "list_all (\<lambda>x. P (fst x)) n2"
      "snd (seq as (sent @ n1)) \<noteq> None \<or> list_all snd n2"
      unfolding calls_within_def by blast
    show "\<exists>new. fst (seq (a # as) sent) = sent @ new \<and> list_all (\<lambda>x. P (fst x)) new \<and>
            (snd (seq (a # as) sent) \<noteq> None \<or> list_all snd new)"
    proof (cases "snd (a sent)")
      case None
      with n1 have "a sent = (sent @ n1, None)" by (metis prod.collapse)
      with n1 n2 None show ?thesis
        by (intro exI [of _ "n1 @ n2"]) auto
    next
      case (Some e)
      with n1 have "a sent = (sent @ n1, Some e)" by (metis prod.collapse)
      with n1 show ?thesis
        by (intro exI [of _ n1]) auto
    qed
  qed
qed

lemma calls_within_publishes:
  "list_all P ms \<Longrightarrow> calls_within P (seq (map (publish publish_ok) ms))"
  by (rule calls_within_seq) (simp add: list_all_iff calls_within_publish)

lemma calls_within_publish_node:
  "calls_within (\<lambda>m. True) (publish_node publish_ok topicroot item)"
  by (cases "data_sensor (snd item)")
     (simp_all add: publish_node_def calls_within_raise calls_within_publishes list_all_iff)

lemma try_publishing_calls:
  assumes "calls_within P body"
  shows "\<exists>new. attempts (try_publishing st body) = attempts st @ new \<and>
           list_all (\<lambda>x. P (fst x)) new \<and>
           (list_all snd new \<or>
            mq_errors (try_publishing st body) = mq_errors st @ [''Error publishing mqtt messages''])"
proof -
  from assms obtain new where new: "fst (body (attempts st)) = attempts st @ new"
    "list_all (\<lambda>x. P (fst x)) new" "snd (body (attempts st)) \<noteq> None \<or> list_all snd new"
    unfolding calls_within_def by blast
  show ?thesis
  proof (cases "snd (body (attempts st))")
    case None
    with new have "body (attempts st) = (attempts st @ new, None)" by (metis prod.collapse)
    with new None show ?thesis by (intro exI [of _ new]) (simp add: try_publishing_def)
  next
    case (Some e)
    with new have "body (attempts st) = (attempts st @ new, Some e)" by (metis prod.collapse)
    with new show ?thesis by (intro exI [of _ new]) (simp add: try_publishing_def)
  qed
qed

lemma homie_onNewData:
  "params_get st ''payload_format'' ''home-assistant'' = ''homie'' \<Longrightarrow>
   mq_onNewData publish_ok st dat sen = sendHomieMessages publish_ok st dat sen"
  by (simp add: mq_onNewData_def Let_def)

lemma newSensor_iff: "newSensor st sen \<longleftrightarrow> displayid sen \<notin> set (keys (mq_values st))"
proof -
  have "newSensor st sen \<longleftrightarrow> map_of (mq_values st) (displayid sen) = None"
    by (simp add: newSensor_def split: option.splits)
  then show ?thesis by (simp add: map_of_eq_None_iff keys_def)
qed

lemma homie_topicroot_cong:
  "params st' = params st \<Longrightarrow> homie_topicroot st' = homie_topicroot st"
  by (simp add: homie_topicroot_def params_get_def)

lemma device_topics_cong:
  "params st' = params st \<Longrightarrow> device_topics st' = device_topics st"
  using homie_topicroot_cong [of st' st] by (simp add: device_topics_def)

lemma sensor_messages_not_device:
  "list_all (\<lambda>m. topic m \<notin> set (device_topics st))
     (sensor_messages (homie_topicroot st) sid sen raw)"
  by (simp add: sensor_messages_def device_topics_def Let_def)

lemma mq_onNewData_values_mono:
  "set (keys (mq_values st)) \<subseteq> set (keys (mq_values (mq_onNewData publish_ok st dat sen)))"
  by (auto simp: mq_onNewData_def Let_def sendHomieMessages_frame sendHomeAssistantMessage_frame
        keys_update)

lemma mq_deliver_frame:
  "params (mq_deliver publish_ok st rs) = params st \<and>
   set (keys (mq_values st)) \<subseteq> set (keys (mq_values (mq_deliver publish_ok st rs)))"
proof (induction rs arbitrary: st)
  case Nil
  then show ?case by simp
next
  case (Cons r rs)
  obtain dat sen where r: "r = (dat, sen)" by (cases r)
  from Cons.IH [of "mq_onNewData publish_ok st dat sen"]
       mq_onNewData_values_mono [of st publish_ok dat sen]
  show ?case by (auto simp: r mq_onNewData_frame)
qed

lemma sendHomieMessages_known_calls:
  assumes "\<not> newSensor st sen"
  shows "\<exists>new. attempts (sendHomieMessages publish_ok st dat sen) = attempts st @ new \<and>
           list_all (\<lambda>x. topic (fst x) \<notin> set (device_topics st)) new"
proof (cases "mq_ready st")
  case False
  then show ?thesis by (simp add: sendHomieMessages_def Let_def)
next
  case True
  let ?st1 = "st\<lparr>mq_values := AList.update (displayid sen) dat (mq_values st)\<rparr>"
  have root: "homie_topicroot ?st1 = homie_topicroot st" by (rule homie_topicroot_cong) simp
  have "calls_within (\<lambda>m. topic m \<notin> set (device_topics st))
          (seq (map (publish publish_ok)
                  (sensor_messages (homie_topicroot st) (displayid sen) sen (rawvalue dat))))"
    by (rule calls_within_publishes) (rule sensor_messages_not_device)
  from try_publishing_calls [OF this, of ?st1] show ?thesis
    using True assms by (auto simp: sendHomieMessages_def Let_def root)
qed

lemma sendHomieMessages_logs_failure:
  "\<exists>new. attempts (sendHomieMessages publish_ok st dat sen) = attempts st @ new \<and>
     (list_all snd new \<or>
      mq_errors (sendHomieMessages publish_ok st dat sen) =
        mq_errors st @ [''Error publishing mqtt messages''])"
proof (cases "mq_ready st")
  case False
  then show ?thesis by (simp add: sendHomieMessages_def Let_def)
next
  case True
  let ?st1 = "st\<lparr>mq_values := AList.update (displayid sen) dat (mq_values st)\<rparr>"
  note t = try_publishing_calls [where P = "\<lambda>m. True" and st = ?st1]
  show ?thesis
  proof (cases "newSensor st sen")
    case new: True
    have "calls_within (\<lambda>m. True)
            (seq (map (publish publish_ok) (device_messages ?st1) @
                  map (publish_node publish_ok (homie_topicroot ?st1)) (mq_values ?st1)))"
      by (rule calls_within_seq)
         (auto simp: list_all_iff calls_within_publish calls_within_publish_node)
    from t [OF this] show ?thesis
      using True new by (auto simp: sendHomieMessages_def Let_def)
  next
    case old: False
    have "calls_within (\<lambda>m. True)
            (seq (map (publish publish_ok)
                    (sensor_messages (homie_topicroot ?st1) (displayid sen) sen (rawvalue dat))))"
      by (rule calls_within_publishes) (simp add: list_all_iff)
    from t [OF this] show ?thesis
      using True old by (auto simp: sendHomieMessages_def Let_def)
  qed
qed

lemma sendHomeAssistantMessage_logs_failure:
  "\<exists>new. attempts (sendHomeAssistantMessage publish_ok st dat sen) = attempts st @ new \<and>
     (list_all snd new \<or>
      mq_errors (sendHomeAssistantMessage publish_ok st dat sen) =
        mq_errors st @ [''Error publishing mqtt messages''])"
proof (cases "mq_ready st")
  case False
  then show ?thesis by (simp add: sendHomeAssistantMessage_def Let_def)
next
  case True
  have "calls_within (\<lambda>m. True)
          (seq ((if newSensor st sen
                 then [publish publish_ok
                         \<lparr>topic = topicconfig st sen, payload = Json (config_payload st sen),
                          qos = 0, retain = True\<rparr>]
                 else []) @
                [publish publish_ok
                   \<lparr>topic = topicstate st sen, payload = Json (statePayload dat sen),
                    qos = 0, retain = False\<rparr>]))"
    by (rule calls_within_seq) (simp add: calls_within_publish)
  from try_publishing_calls [OF this, of st] show ?thesis
    using True by (auto simp: sendHomeAssistantMessage_def Let_def)
qed

lemma mq_onNewData_logs_failure:
  "\<exists>new. attempts (mq_onNewData publish_ok st dat sen) = attempts st @ new \<and>
     (list_all snd new \<or>
      mq_errors (mq_onNewData publish_ok st dat sen) =
        mq_errors st @ [''Error publishing mqtt messages''])"
proof -
  let ?fmt = "params_get st ''payload_format'' ''home-assistant''"
  consider "?fmt = ''homie''" | "?fmt = ''home-assistant''"
    | "?fmt \<noteq> ''homie''" "?fmt \<noteq> ''home-assistant''" by blast
  then show ?thesis
  proof cases
    case 1
    then show ?thesis
      using sendHomieMessages_logs_failure [of publish_ok st dat sen]
      by (simp add: mq_onNewData_def Let_def)
  next
    case 2
    then show ?thesis
      using sendHomeAssistantMessage_logs_failure [of publish_ok st dat sen]
      by (simp add: mq_onNewData_def Let_def)
  next
    case 3
    then show ?thesis by (simp add: mq_onNewData_def Let_def)
  qed
qed

lemma seq_publish_Cons:
  "seq (publish publish_ok m # as) sent =
     (if publish_ok (length sent) then seq as (sent @ [(m, True)])
      else (sent @ [(m, False)], Some TransportError))"
  by (simp add: publish_def)

lemma seq_grows:
  assumes "list_all (calls_within P) as"
  shows "\<exists>new. fst (seq as sent) = sent @ new"
  using calls_within_seq [OF assms] unfolding calls_within_def by blast

lemma try_publishing_attempts: "attempts (try_publishing st body) = fst (body (attempts st))"
  by (simp add: try_publishing_def split: prod.splits option.splits)

lemma published_length: "length (published publish_ok n ms) \<le> length ms"
  by (induction ms arbitrary: n) auto

lemma published_all_length:
  "list_all snd (published publish_ok n ms) \<Longrightarrow> length (published publish_ok n ms) = length ms"
  by (induction ms arbitrary: n) (auto split: if_splits)

lemma published_always:
  "(\<forall>k. publish_ok k) \<Longrightarrow> published publish_ok n ms = map (\<lambda>m. (m, True)) ms"
  by (induction ms arbitrary: n) auto

lemma seq_publish_published:
  "seq (map (publish publish_ok) ms) sent =
     (sent @ published publish_ok (length sent) ms,
      if list_all snd (published publish_ok (length sent) ms) then None
      else Some TransportError)"
proof (induction ms arbitrary: sent)
  case Nil
  then show ?case by simp
next
  case (Cons m ms)
  show ?case
  proof (cases "publish_ok (length sent)")
    case True
    with Cons.IH [of "sent @ [(m, True)]"] show ?thesis
      by (simp add: seq_publish_Cons del: seq.simps)
  next
    case False
    then show ?thesis
      by (simp add: seq_publish_Cons del: seq.simps)
  qed
qed

lemma seq_append:
  "seq (as @ bs) sent =
     (case seq as sent of (s, None) \<Rightarrow> seq bs s | (s, Some e) \<Rightarrow> (s, Some e))"
  by (induction as arbitrary: sent) (auto split: prod.splits option.splits)

lemma announce_published:
  assumes "list_all (calls_within P) rest"
  shows "take (length ms)
           (drop (length sent) (fst (seq (map (publish publish_ok) ms @ rest) sent))) =
         published publish_ok (length sent) ms"
proof (cases "list_all snd (published publish_ok (length sent) ms)")
  case True
  from seq_grows [OF assms, of "sent @ published publish_ok (length sent) ms"]
  obtain more where
    "fst (seq rest (sent @ published publish_ok (length sent) ms)) =
       (sent @ published publish_ok (length sent) ms) @ more" ..
  with True published_all_length [OF True] show ?thesis
    by (simp add: seq_append seq_publish_published)
next
  case False
  with published_length [of publish_ok "length sent" ms] show ?thesis
    by (simp add: seq_append seq_publish_published)
qed

lemma publish_node_always:
  assumes "\<forall>k. publish_ok k" "data_sensor (snd item) \<noteq> None"
  shows "publish_node publish_ok topicroot item sent =
           (sent @ map (\<lambda>m. (m, True)) (node_messages topicroot item), None)"
proof -
  from assms(2) obtain vsen where v: "data_sensor (snd item) = Some vsen" by blast
  show ?thesis
    using assms(1)
    by (simp add: publish_node_def node_messages_def v seq_publish_published published_always
          list_all_iff)
qed

lemma node_loop_always:
  assumes "\<forall>k. publish_ok k" "list_all (\<lambda>item. data_sensor (snd item) \<noteq> None) vals"
  shows "seq (map (publish_node publish_ok topicroot) vals) sent =
           (sent @ map (\<lambda>m. (m, True)) (concat (map (node_messages topicroot) vals)), None)"
  using assms(2)
proof (induction vals arbitrary: sent)
  case Nil
  then show ?case by simp
next
  case (Cons item vals)
  then have "data_sensor (snd item) \<noteq> None"
    and rest: "list_all (\<lambda>item. data_sensor (snd item) \<noteq> None) vals"
    by simp_all
  from publish_node_always [OF assms(1) this(1), of topicroot sent] Cons.IH [OF rest]
  show ?case by simp
qed

lemma announce_always:
  assumes "\<forall>k. publish_ok k" "list_all (\<lambda>item. data_sensor (snd item) \<noteq> None) vals"
  shows "fst (seq (map (publish publish_ok) ms @ map (publish_node publish_ok topicroot) vals)
                sent) =
         sent @ map (\<lambda>m. (m, True)) (ms @ concat (map (node_messages topicroot) vals))"
  using assms(1)
  by (simp add: seq_append seq_publish_published published_always list_all_iff
        node_loop_always [OF assms])

lemma sendHomieMessages_known_published:
  assumes "\<not> newSensor st sen" "mq_ready st"
  shows "calls_between st (sendHomieMessages publish_ok st dat sen) =
           published publish_ok (length (attempts st))
             (sensor_messages (homie_topicroot st) (displayid sen) sen (rawvalue dat))"
proof -
  let ?st1 = "st\<lparr>mq_values := AList.update (displayid sen) dat (mq_values st)\<rparr>"
  have tr: "homie_topicroot ?st1 = homie_topicroot st" by (rule homie_topicroot_cong) simp
  show ?thesis
    using assms
    by (simp add: sendHomieMessages_def Let_def try_publishing_attempts tr calls_between_def
          seq_publish_published)
qed

lemma nodestring_keys:
  "nodestring vals = join '','' (map (\<lambda>sid. ''sensor_'' @ str_int sid) (keys vals))"
  by (simp add: nodestring_def keys_def comp_def)

text \<open>
  Claim C6. When the connection attempt made at construction fails, \<open>ready\<close> is false
  after any sequence of deliveries, \<^verbatim>\<open>connect\<close> has been called once and never again,
  and no publish call has been made, whatever the parameters (so under both payload
  formats) and whatever the broker would have answered.
\<close>

theorem C6_failed_connect_never_publishes:
  "\<not> mq_ready (mq_deliver publish_ok (mq_init ps False) rs) \<and>
   connect_calls (mq_deliver publish_ok (mq_init ps False) rs) = 1 \<and>
   attempts (mq_deliver publish_ok (mq_init ps False) rs) = []"
proof -
  have "\<not> mq_ready (mq_init ps False)"
    by (simp add: mq_init_def connect_def)
  from mq_deliver_not_ready [OF this, of publish_ok rs] show ?thesis
    by (simp add: mq_init_def connect_def)
qed

text \<open>
  Claim C1 (a discovery/config payload is published at most once per sensor, before its
  first state payload, under both formats). \<^verbatim>\<open>sendHomeAssistantMessage\<close> looks the
  sensor up in \<open>values\<close> to find out whether it is new, but never stores it there, unlike
  \<^verbatim>\<open>sendHomieMessages\<close>. With a connected broker that accepts every call, two readings
  of the sensor Garden make four publish calls: config, state, config, state. The
  config payload is published at every reading.
\<close>

theorem C1_home_assistant_config_sent_on_every_reading:
  "attempted_topics
     (mq_deliver always (mq_init default_params True)
        [(reading 452 1700000000, garden), (reading 455 1700000060, garden)]) =
   [''homeassistant/sensor/pylarexx_3/config'', ''homeassistant/sensor/pylarexx_3/state'',
    ''homeassistant/sensor/pylarexx_3/config'', ''homeassistant/sensor/pylarexx_3/state'']"
  by (simp add: mq_eval sample_defs format_eval)

text \<open>
  Claim C2 (for the sensor Garden of type Relative Humidity and unit %RH the discovery
  payload has device class humidity and unit %, and the state payload uses the key
  humidity). The first reading of that sensor publishes the config payload with
  \<^verbatim>\<open>device_class\<close> humidity, \<^verbatim>\<open>unit_of_measurement\<close> % and the value template
  \<^verbatim>\<open>{{value_json.humidity}}\<close>, and then a state payload whose only key is
  \<^verbatim>\<open>relative humidity\<close>: the alias is applied to the config payload only, so the
  template of the config payload names a key that the state payload does not have.
\<close>

theorem C2_state_payload_key_not_aliased:
  "map fst (attempts (mq_onNewData always (mq_init default_params True)
                        (reading 452 1700000000) garden)) =
   [\<lparr>topic = ''homeassistant/sensor/pylarexx_3/config'',
     payload = Json [(''name'', ''Garden Relative Humidity''),
                     (''device_class'', ''humidity''),
                     (''state_topic'', ''homeassistant/sensor/pylarexx_3/state''),
                     (''unit_of_measurement'', ''%''),
                     (''value_template'', ''{{value_json.humidity}}'')],
     qos = 0, retain = True\<rparr>,
    \<lparr>topic = ''homeassistant/sensor/pylarexx_3/state'',
     payload = Json [(''relative humidity'', ''45.20'')], qos = 0, retain = False\<rparr>]"
  by (simp add: mq_eval sample_defs format_eval)

text \<open>
  Claim C3 as stated (the device-level metadata is published only once, and a sensor
  seen later does not appear in \<^verbatim>\<open>$nodes\<close>) does not hold: after a reading of the sensor
  Office and one of the sensor Garden, \<^verbatim>\<open>$nodes\<close> has been published twice, the second
  time with both sensors.
\<close>

theorem C3_device_metadata_republished:
  "attempted_on ''homie/pylarexx/$nodes''
     (mq_deliver always (mq_init homie_params True)
        [(reading 230 1700000000, office), (reading 452 1700000060, garden)]) =
   [Text ''sensor_7'', Text ''sensor_7,sensor_3'']"
  by (simp add: mq_eval sample_defs format_eval)

text \<open>
  Claim C3, amended. Under the homie format and with a connected broker, the device-level
  metadata is published at every delivery of a sensor whose display id is not yet a key
  of \<open>values\<close>, and at no other delivery. Such a delivery appends the display id to the
  keys; its first publish calls are \<^verbatim>\<open>$homie\<close>, \<^verbatim>\<open>$name\<close>, \<^verbatim>\<open>$nodes\<close> and \<^verbatim>\<open>$state\<close>,
  retained, in this order and up to the first call that raises, where \<^verbatim>\<open>$nodes\<close> lists
  \<^verbatim>\<open>sensor_<displayid>\<close> for every key of \<open>values\<close> at that moment, the new sensor
  included; when no publish call raises and every stored data point carries its sensor,
  the delivery goes on with the node messages of every known sensor, in the order of
  \<open>values\<close>, and makes no other call. The delivery of a sensor that is already a key
  leaves the keys as they are and publishes that sensor alone: its calls are exactly
  the seven messages of the sensor's node, in order and up to the first call that
  raises, none of them on a device-level topic.
\<close>

theorem C3_device_metadata_per_new_sensor:
  assumes homie: "params_get st ''payload_format'' ''home-assistant'' = ''homie''"
    and ready: "mq_ready st"
  shows
    "if newSensor st sen
     then keys (mq_values (mq_onNewData publish_ok st dat sen)) =
            keys (mq_values st) @ [displayid sen] \<and>
          (let announcement =
                 [\<lparr>topic = homie_topicroot st @ ''/$homie'',
                   payload = Text (params_get st ''homie_convention_version'' ''3.0''),
                   qos = 0, retain = True\<rparr>,
                  \<lparr>topic = homie_topicroot st @ ''/$name'',
                   payload = Text (params_get st ''mqtt_device_name''
                                     ''Python MQTT Adapter for Arexx Multilogger''),
                   qos = 0, retain = True\<rparr>,
                  \<lparr>topic = homie_topicroot st @ ''/$nodes'',
                   payload = Text (join '','' (map (\<lambda>sid. ''sensor_'' @ str_int sid)
                                                 (keys (mq_values st) @ [displayid sen]))),
                   qos = 0, retain = True\<rparr>,
                  \<lparr>topic = homie_topicroot st @ ''/$state'', payload = Text ''ready'',
                   qos = 0, retain = True\<rparr>]
           in take 4 (calls_between st (mq_onNewData publish_ok st dat sen)) =
                published publish_ok (length (attempts st)) announcement \<and>
              ((\<forall>k. publish_ok k) \<and>
               list_all (\<lambda>item. data_sensor (snd item) \<noteq> None)
                 (mq_values (mq_onNewData publish_ok st dat sen)) \<longrightarrow>
               calls_between st (mq_onNewData publish_ok st dat sen) =
                 map (\<lambda>m. (m, True))
                   (announcement @
                    concat (map (node_messages (homie_topicroot st))
                              (mq_values (mq_onNewData publish_ok st dat sen))))))
     else keys (mq_values (mq_onNewData publish_ok st dat sen)) = keys (mq_values st) \<and>
          list_all (\<lambda>a. topic (fst a) \<notin> set (device_topics st))
            (calls_between st (mq_onNewData publish_ok st dat sen)) \<and>
          calls_between st (mq_onNewData publish_ok st dat sen) =
            published publish_ok (length (attempts st))
              (sensor_messages (homie_topicroot st) (displayid sen) sen (rawvalue dat))"
proof (cases "newSensor st sen")
  case False
  then have "keys (mq_values (mq_onNewData publish_ok st dat sen)) = keys (mq_values st)"
    by (simp add: homie_onNewData [OF homie] sendHomieMessages_frame keys_update newSensor_iff)
  moreover have "list_all (\<lambda>a. topic (fst a) \<notin> set (device_topics st))
                   (calls_between st (mq_onNewData publish_ok st dat sen))"
    using sendHomieMessages_known_calls [OF False, of publish_ok dat]
    by (auto simp: homie_onNewData [OF homie] calls_between_def)
  moreover have "calls_between st (mq_onNewData publish_ok st dat sen) =
      published publish_ok (length (attempts st))
        (sensor_messages (homie_topicroot st) (displayid sen) sen (rawvalue dat))"
    using sendHomieMessages_known_published [OF False ready, of publish_ok dat]
    by (simp add: homie_onNewData [OF homie])
  ultimately show ?thesis using False by simp
next
  case True
  let ?stored = "st\<lparr>mq_values := AList.update (displayid sen) dat (mq_values st)\<rparr>"
  let ?after = "mq_onNewData publish_ok st dat sen"
  let ?announcement =
    "[\<lparr>topic = homie_topicroot st @ ''/$homie'',
       payload = Text (params_get st ''homie_convention_version'' ''3.0''),
       qos = 0, retain = True\<rparr>,
      \<lparr>topic = homie_topicroot st @ ''/$name'',
       payload = Text (params_get st ''mqtt_device_name''
                         ''Python MQTT Adapter for Arexx Multilogger''),
       qos = 0, retain = True\<rparr>,
      \<lparr>topic = homie_topicroot st @ ''/$nodes'',
       payload = Text (join '','' (map (\<lambda>sid. ''sensor_'' @ str_int sid)
                                     (keys (mq_values st) @ [displayid sen]))),
       qos = 0, retain = True\<rparr>,
      \<lparr>topic = homie_topicroot st @ ''/$state'', payload = Text ''ready'',
       qos = 0, retain = True\<rparr>]"
  have k: "keys (mq_values ?after) = keys (mq_values st) @ [displayid sen]"
    using True
    by (simp add: homie_onNewData [OF homie] sendHomieMessages_frame keys_update newSensor_iff)
  have tr: "homie_topicroot ?stored = homie_topicroot st" by (rule homie_topicroot_cong) simp
  have k1: "keys (mq_values ?stored) = keys (mq_values st) @ [displayid sen]"
    using True by (simp add: keys_update newSensor_iff)
  have dm: "device_messages ?stored = ?announcement"
    unfolding device_messages_def tr nodestring_keys k1 by (simp add: params_get_def)
  have mv: "mq_values ?after = mq_values ?stored"
    by (simp add: homie_onNewData [OF homie] sendHomieMessages_frame)
  have calls: "calls_between st ?after =
      drop (length (attempts st))
        (fst (seq (map (publish publish_ok) ?announcement @
                   map (publish_node publish_ok (homie_topicroot st)) (mq_values ?stored))
                (attempts st)))"
    using True ready
    by (simp add: homie_onNewData [OF homie] sendHomieMessages_def Let_def
          try_publishing_attempts calls_between_def dm tr)
  have rest: "list_all (calls_within (\<lambda>m. True))
                (map (publish_node publish_ok (homie_topicroot st)) (mq_values ?stored))"
    by (simp add: list_all_iff calls_within_publish_node)
  have four: "take 4 (calls_between st ?after) =
                published publish_ok (length (attempts st)) ?announcement"
  proof -
    note first = announce_published [OF rest, where ms = ?announcement
        and sent = "attempts st" and publish_ok = publish_ok]
    have len: "length ?announcement = 4" by simp
    show ?thesis unfolding calls using first unfolding len .
  qed
  have whole: "calls_between st ?after =
      map (\<lambda>m. (m, True))
        (?announcement @ concat (map (node_messages (homie_topicroot st)) (mq_values ?after)))"
    if "\<forall>k. publish_ok k"
      and "list_all (\<lambda>item. data_sensor (snd item) \<noteq> None) (mq_values ?after)"
  proof -
    from that(2) have "list_all (\<lambda>item. data_sensor (snd item) \<noteq> None) (mq_values ?stored)"
      unfolding mv .
    note all = announce_always [OF that(1) this, where ms = ?announcement
        and sent = "attempts st" and topicroot = "homie_topicroot st"]
    show ?thesis unfolding calls mv all by simp
  qed
  show ?thesis
    unfolding Let_def if_P [OF True] using k four whole by blast
qed

theorem C3_device_metadata_per_new_sensor_witness:
  "mq_ready (mq_onNewData always (mq_init homie_params True) (carrying office 230 1700000000)
               office) \<and>
   newSensor (mq_onNewData always (mq_init homie_params True) (carrying office 230 1700000000)
                office)
     garden \<and>
   map (\<lambda>a. (topic (fst a), payload (fst a)))
     (take 4 (calls_between
                (mq_onNewData always (mq_init homie_params True)
                   (carrying office 230 1700000000) office)
                (mq_onNewData always
                   (mq_onNewData always (mq_init homie_params True)
                      (carrying office 230 1700000000) office)
                   (carrying garden 452 1700000060) garden))) =
   [(''homie/pylarexx/$homie'', Text ''3.0''),
    (''homie/pylarexx/$name'', Text ''Python MQTT Adapter for Arexx Multilogger''),
    (''homie/pylarexx/$nodes'', Text ''sensor_7,sensor_3''),
    (''homie/pylarexx/$state'', Text ''ready'')] \<and>
   map (\<lambda>a. (topic (fst a), snd a))
     (calls_between
        (mq_onNewData always (mq_init homie_params True) (carrying office 230 1700000000)
           office)
        (mq_onNewData always
           (mq_onNewData always (mq_init homie_params True) (carrying office 230 1700000000)
              office)
           (carrying garden 452 1700000060) garden)) =
   [(''homie/pylarexx/$homie'', True), (''homie/pylarexx/$name'', True),
    (''homie/pylarexx/$nodes'', True), (''homie/pylarexx/$state'', True),
    (''homie/pylarexx/sensor_7/$type'', True), (''homie/pylarexx/sensor_7/$name'', True),
    (''homie/pylarexx/sensor_7/$properties'', True),
    (''homie/pylarexx/sensor_7/temperature/$name'', True),
    (''homie/pylarexx/sensor_7/temperature/$datatype'', True),
    (''homie/pylarexx/sensor_7/temperature/$unit'', True),
    (''homie/pylarexx/sensor_7/temperature'', True),
    (''homie/pylarexx/sensor_3/$type'', True), (''homie/pylarexx/sensor_3/$name'', True),
    (''homie/pylarexx/sensor_3/$properties'', True),
    (''homie/pylarexx/sensor_3/relative humidity/$name'', True),
    (''homie/pylarexx/sensor_3/relative humidity/$datatype'', True),
    (''homie/pylarexx/sensor_3/relative humidity/$unit'', True),
    (''homie/pylarexx/sensor_3/relative humidity'', True)]"
proof -
  let ?fresh = "mq_init homie_params True"
  let ?known = "mq_onNewData always ?fresh (carrying office 230 1700000000) office"
  let ?after = "mq_onNewData always ?known (carrying garden 452 1700000060) garden"
  have p: "params ?known = homie_params"
    by (simp add: mq_onNewData_frame mq_init_def connect_def)
  have h0: "params_get ?fresh ''payload_format'' ''home-assistant'' = ''homie''"
    by (simp add: params_get_def mq_init_def connect_def homie_params_def)
  have h: "params_get ?known ''payload_format'' ''home-assistant'' = ''homie''"
    unfolding params_get_def p by (simp add: homie_params_def)
  have r: "mq_ready ?known"
    by (simp add: mq_onNewData_frame mq_init_def connect_def)
  have v: "mq_values ?known = [(7, carrying office 230 1700000000)]"
    unfolding homie_onNewData [OF h0] sendHomieMessages_frame
    by (simp add: office_def mq_init_def connect_def)
  have kv: "keys (mq_values ?known) = [7]"
    unfolding v by (simp add: keys_def)
  have n: "newSensor ?known garden"
    by (simp add: newSensor_iff kv garden_def)
  have va: "mq_values ?after =
              [(7, carrying office 230 1700000000), (3, carrying garden 452 1700000060)]"
    unfolding homie_onNewData [OF h] sendHomieMessages_frame v
    by (simp add: garden_def)
  have t: "homie_topicroot ?known = ''homie/pylarexx''"
    unfolding homie_topicroot_def params_get_def p by (simp add: homie_params_def)
  have g: "params_get ?known ''homie_convention_version'' ''3.0'' = ''3.0''"
    "params_get ?known ''mqtt_device_name'' ''Python MQTT Adapter for Arexx Multilogger'' =
       ''Python MQTT Adapter for Arexx Multilogger''"
    unfolding params_get_def p by (simp_all add: homie_params_def)
  have accepted: "\<forall>k. always k"
    by (simp add: always_def)
  have carried: "list_all (\<lambda>item. data_sensor (snd item) \<noteq> None) (mq_values ?after)"
    unfolding va by (simp add: carrying_def)
  note result = C3_device_metadata_per_new_sensor
      [OF h r, of garden always "carrying garden 452 1700000060", unfolded if_P [OF n] Let_def]
  note four = result [THEN conjunct2, THEN conjunct1]
  note whole = result [THEN conjunct2, THEN conjunct2, THEN mp, OF conjI [OF accepted carried]]
  have announced: "map (\<lambda>a. (topic (fst a), payload (fst a)))
      (take 4 (calls_between ?known ?after)) =
    [(''homie/pylarexx/$homie'', Text ''3.0''),
     (''homie/pylarexx/$name'', Text ''Python MQTT Adapter for Arexx Multilogger''),
     (''homie/pylarexx/$nodes'', Text ''sensor_7,sensor_3''),
     (''homie/pylarexx/$state'', Text ''ready'')]"
    unfolding four t g kv by (simp add: always_def garden_def format_eval)
  have calls: "map (\<lambda>a. (topic (fst a), snd a)) (calls_between ?known ?after) =
    [(''homie/pylarexx/$homie'', True), (''homie/pylarexx/$name'', True),
     (''homie/pylarexx/$nodes'', True), (''homie/pylarexx/$state'', True),
     (''homie/pylarexx/sensor_7/$type'', True), (''homie/pylarexx/sensor_7/$name'', True),
     (''homie/pylarexx/sensor_7/$properties'', True),
     (''homie/pylarexx/sensor_7/temperature/$name'', True),
     (''homie/pylarexx/sensor_7/temperature/$datatype'', True),
     (''homie/pylarexx/sensor_7/temperature/$unit'', True),
     (''homie/pylarexx/sensor_7/temperature'', True),
     (''homie/pylarexx/sensor_3/$type'', True), (''homie/pylarexx/sensor_3/$name'', True),
     (''homie/pylarexx/sensor_3/$properties'', True),
     (''homie/pylarexx/sensor_3/relative humidity/$name'', True),
     (''homie/pylarexx/sensor_3/relative humidity/$datatype'', True),
     (''homie/pylarexx/sensor_3/relative humidity/$unit'', True),
     (''homie/pylarexx/sensor_3/relative humidity'', True)]"
    unfolding whole va t g kv
    by (simp add: node_messages_def sensor_messages_def carrying_def garden_def office_def
          format_eval)
  show ?thesis
    by (intro conjI r n announced calls)
qed

text \<open>
  Under the homie format the sensor is stored before the \<^verbatim>\<open>try\<close> block. A delivery never
  removes a key from \<open>values\<close>, whatever the publish calls do, and when one of its publish
  calls fails the error is logged in that delivery. Under the homie format the sensor
  delivered is a key of \<open>values\<close> after the delivery even if publish calls failed, it
  still is after any further deliveries, and a later reading of it makes no publish
  call on the device-level topics.
\<close>

lemma homie_publish_failure_keeps_announced:
  "set (keys (mq_values st)) \<subseteq> set (keys (mq_values (mq_onNewData publish_ok st dat sen))) \<and>
   (\<not> list_all snd (calls_between st (mq_onNewData publish_ok st dat sen)) \<longrightarrow>
      mq_errors (mq_onNewData publish_ok st dat sen) =
        mq_errors st @ [''Error publishing mqtt messages'']) \<and>
   (params_get st ''payload_format'' ''home-assistant'' = ''homie'' \<longrightarrow>
      displayid sen \<in> set (keys (mq_values (mq_onNewData publish_ok st dat sen))) \<and>
      \<not> newSensor (mq_deliver publish_ok (mq_onNewData publish_ok st dat sen) rs) sen \<and>
      list_all (\<lambda>a. topic (fst a) \<notin> set (device_topics st))
        (calls_between (mq_deliver publish_ok (mq_onNewData publish_ok st dat sen) rs)
           (mq_onNewData publish_ok
              (mq_deliver publish_ok (mq_onNewData publish_ok st dat sen) rs) dat' sen)))"
proof (intro conjI impI)
  let ?st1 = "mq_onNewData publish_ok st dat sen"
  let ?st2 = "mq_deliver publish_ok ?st1 rs"
  show "set (keys (mq_values st)) \<subseteq> set (keys (mq_values ?st1))"
    by (rule mq_onNewData_values_mono)
  show "mq_errors ?st1 = mq_errors st @ [''Error publishing mqtt messages'']"
    if "\<not> list_all snd (calls_between st ?st1)"
    using that mq_onNewData_logs_failure [of publish_ok st dat sen]
    by (auto simp: calls_between_def)
  assume homie: "params_get st ''payload_format'' ''home-assistant'' = ''homie''"
  show in1: "displayid sen \<in> set (keys (mq_values ?st1))"
    by (simp add: homie_onNewData [OF homie] sendHomieMessages_frame keys_update)
  have p2: "params ?st2 = params st"
    using mq_deliver_frame [of publish_ok ?st1 rs] by (simp add: mq_onNewData_frame)
  have "displayid sen \<in> set (keys (mq_values ?st2))"
    using in1 mq_deliver_frame [of publish_ok ?st1 rs] by blast
  then show known: "\<not> newSensor ?st2 sen" by (simp add: newSensor_iff)
  have homie2: "params_get ?st2 ''payload_format'' ''home-assistant'' = ''homie''"
    using homie by (simp add: params_get_cong [OF p2])
  from sendHomieMessages_known_calls [OF known, of publish_ok dat']
  show "list_all (\<lambda>a. topic (fst a) \<notin> set (device_topics st))
          (calls_between ?st2 (mq_onNewData publish_ok ?st2 dat' sen))"
    by (auto simp: homie_onNewData [OF homie2] calls_between_def device_topics_cong [OF p2])
qed

text \<open>
  Claim C7 (a failed publish call is caught and logged and does not unset the announced
  flag: the sensor stays announced and later readings of it do not announce it again).
  The failure is caught and logged, but under the default home-assistant format the
  sensor is never stored in \<open>values\<close>, so there is no flag to keep: when the first
  publish call, the one of the config payload, raises, the error is logged, \<open>values\<close>
  is still empty, and the next reading of the sensor publishes the config payload
  again before its state payload.
\<close>

theorem C7_home_assistant_announces_again_after_failure:
  "attempt_outcomes
     (mq_deliver first_fails (mq_init default_params True)
        [(reading 452 1700000000, garden), (reading 455 1700000060, garden)]) =
   [(''homeassistant/sensor/pylarexx_3/config'', False),
    (''homeassistant/sensor/pylarexx_3/config'', True),
    (''homeassistant/sensor/pylarexx_3/state'', True)] \<and>
   mq_errors
     (mq_deliver first_fails (mq_init default_params True)
        [(reading 452 1700000000, garden), (reading 455 1700000060, garden)]) =
   [''Error publishing mqtt messages''] \<and>
   keys (mq_values
           (mq_deliver first_fails (mq_init default_params True)
              [(reading 452 1700000000, garden), (reading 455 1700000060, garden)])) = []"
  by (simp add: mq_eval sample_defs format_eval keys_def)

end
